theory Spec2Isabelle
  imports Complex_Main "HOL-Library.Sublist"
begin

section \<open>Numbers\<close>

text \<open>
  The numbers of \<^verbatim>\<open>src/main.py\<close> are floating-point values, modelled by the
  rationals they denote. The box coordinates are entries of a \<^verbatim>\<open>float32\<close> tensor and
  every operation on them rounds to \<^verbatim>\<open>float32\<close>; the quotient by 1000 and
  \<^verbatim>\<open>round\<close> work in \<^verbatim>\<open>float64\<close>. Infinities and NaN are outside the model.
  The mean of the depth samples is kept exact: a mean of a few dozen 16-bit samples and
  the \<^verbatim>\<open>float64\<close> nearest to it are ordered alike and are zero together.
\<close>

text \<open>\<^verbatim>\<open>int(x)\<close> on a float: truncation towards zero.\<close>

definition py_int :: "rat \<Rightarrow> int" where
  "py_int q = (if 0 \<le> q then \<lfloor>q\<rfloor> else \<lceil>q\<rceil>)"

text \<open>Rounding to the nearest integer, a tie going to the even neighbour.\<close>

definition round_half_even :: "rat \<Rightarrow> int" where
  "round_half_even q =
     (let f = \<lfloor>q\<rfloor>; r = q - of_int f
      in if r < 1 / 2 then f
         else if 1 / 2 < r then f + 1
         else if even f then f else f + 1)"

definition pow2 :: "int \<Rightarrow> rat" where
  "pow2 k = (if 0 \<le> k then 2 ^ nat k else 1 / 2 ^ nat (- k))"

text \<open>
  IEEE 754 rounding to nearest, ties to even, for a format with \<open>p\<close> significant bits
  whose smallest positive value is \<open>2 ^ kmin\<close>: the value is rounded to a multiple of
  \<open>2 ^ k\<close>, where \<open>k\<close> is the least exponent from \<open>kmin\<close> on with
  \<open>\<bar>q\<bar> < 2 ^ (k + p)\<close>. The search runs over the binades of the format.
\<close>

fun ulp_search :: "nat \<Rightarrow> nat \<Rightarrow> int \<Rightarrow> rat \<Rightarrow> int" where
  "ulp_search p 0 k q = k"
| "ulp_search p (Suc n) k q =
     (if \<bar>q\<bar> < pow2 (k + int p) then k else ulp_search p n (k + 1) q)"

definition fl_round :: "nat \<Rightarrow> int \<Rightarrow> nat \<Rightarrow> rat \<Rightarrow> rat" where
  "fl_round p kmin binades q =
     (let k = ulp_search p binades kmin q
      in of_int (round_half_even (q / pow2 k)) * pow2 k)"

definition f32 :: "rat \<Rightarrow> rat" where
  "f32 q = fl_round 24 (- 149) 253 q"

definition f64 :: "rat \<Rightarrow> rat" where
  "f64 q = fl_round 53 (- 1074) 2045 q"

text \<open>
  \<^verbatim>\<open>round(x, 2)\<close> on a float: the exact value of \<open>x\<close> is rounded to two decimals, a
  tie going to the even neighbour, and the result is the nearest \<^verbatim>\<open>float64\<close>.
\<close>

definition py_round2 :: "rat \<Rightarrow> rat" where
  "py_round2 x = f64 (of_int (round_half_even (x * 100)) / 100)"

text \<open>\<^verbatim>\<open>round(d / 1000, 2)\<close>.\<close>

definition to_metres :: "rat \<Rightarrow> rat" where
  "to_metres d = py_round2 (f64 (d / 1000))"

text \<open>\<^verbatim>\<open>f"{n}"\<close> for a non-negative integer: its decimal digits.\<close>

definition digit_char :: "nat \<Rightarrow> char" where
  "digit_char n = ''0123456789'' ! n"

function str_nat :: "nat \<Rightarrow> string" where
  "str_nat n = (if n < 10 then [digit_char n] else str_nat (n div 10) @ [digit_char (n mod 10)])"
  by pat_completeness auto
termination
  by (relation "measure (\<lambda>n. n)") auto

declare str_nat.simps [simp del]

section \<open>Slicing\<close>

text \<open>
  \<^verbatim>\<open>a[start:stop]\<close> on a sequence of length \<open>n\<close>: a negative bound counts from the
  end (and stops at \<open>0\<close>), a bound beyond the end stops at \<open>n\<close>, and the slice is
  empty when the start is not before the stop.
\<close>

definition slice_bound :: "nat \<Rightarrow> int \<Rightarrow> nat" where
  "slice_bound n i = (if i < 0 then nat (max 0 (int n + i)) else min (nat i) n)"

definition py_slice :: "'a list \<Rightarrow> int \<Rightarrow> int \<Rightarrow> 'a list" where
  "py_slice xs start stop =
     (let a = slice_bound (length xs) start; b = slice_bound (length xs) stop
      in take (b - a) (drop a xs))"

section \<open>ObjectDetector\<close>

text \<open>A depth image is a list of rows of unsigned samples in millimetres; \<open>0\<close> is "no reading".\<close>

type_synonym depth_image = "nat list list"

text \<open>A fused object \<^verbatim>\<open>(label, distance)\<close>; the distance \<open>0\<close> stands for "invalid".\<close>

type_synonym fused_object = "string \<times> rat"

text \<open>One row of \<^verbatim>\<open>result.xyxy[0]\<close>: entries 0 to 5.\<close>

record detection =
  x_min :: rat
  y_min :: rat
  x_max :: rat
  y_max :: rat
  confidence :: rat
  class_id :: rat

text \<open>The fields \<^verbatim>\<open>ObjectDetector.__init__\<close> sets (the model handle is left out).\<close>

record object_detector =
  rect_threshold :: int
  range_value :: int

definition ObjectDetector_init :: object_detector where
  "ObjectDetector_init = \<lparr>rect_threshold = \<lfloor>1280 / 8 * 720 / (8 :: rat)\<rfloor>, range_value = 3\<rparr>"

text \<open>
  \<^verbatim>\<open>depth_image[y - r : y + r + 1, x - r : x + r + 1]\<close>: the rows are sliced, then every
  row is sliced by columns.
\<close>

definition region :: "int \<Rightarrow> depth_image \<Rightarrow> int \<Rightarrow> int \<Rightarrow> nat list list" where
  "region r depth x y =
     map (\<lambda>row. py_slice row (x - r) (x + r + 1)) (py_slice depth (y - r) (y + r + 1))"

definition np_mean :: "nat list \<Rightarrow> rat" where
  "np_mean vs = of_nat (sum_list vs) / of_nat (length vs)"

definition calculate_distance :: "object_detector \<Rightarrow> depth_image \<Rightarrow> rat \<Rightarrow> rat \<Rightarrow> rat" where
  "calculate_distance self depth x y =
     (let xi = py_int x; yi = py_int y;
          distances = filter (\<lambda>v. v \<noteq> 0) (concat (region (range_value self) depth xi yi))
      in if length distances \<noteq> 0 then np_mean distances else 0)"

text \<open>
  The loop of \<^verbatim>\<open>detect_objects\<close> over the detector's rows, \<open>acc\<close> being
  \<^verbatim>\<open>detected_objects\<close>. \<open>names\<close> is the detector's class table \<^verbatim>\<open>result.names\<close>;
  the rendered image, which the loop does not touch, is left out. The differences, the
  product, the sums and the halves are \<^verbatim>\<open>float32\<close> operations, and the integer threshold
  is compared as a \<^verbatim>\<open>float32\<close>.
\<close>

fun detect_loop ::
  "object_detector \<Rightarrow> (int \<Rightarrow> string) \<Rightarrow> depth_image \<Rightarrow> detection list \<Rightarrow>
   fused_object list \<Rightarrow> fused_object list" where
  "detect_loop self names depth [] acc = acc"
| "detect_loop self names depth (d # ds) acc =
     (if f32 (f32 (x_max d - x_min d) * f32 (y_max d - y_min d))
           < f32 (of_int (rect_threshold self))
      then detect_loop self names depth ds acc
      else
        let label = names (py_int (class_id d));
            x_center = f32 (f32 (x_min d + x_max d) / 2);
            y_center = f32 (f32 (y_min d + y_max d) / 2);
            distance = calculate_distance self depth x_center y_center
        in detect_loop self names depth ds (acc @ [(label, distance)]))"

definition detect_objects ::
  "object_detector \<Rightarrow> (int \<Rightarrow> string) \<Rightarrow> depth_image \<Rightarrow> detection list \<Rightarrow> fused_object list" where
  "detect_objects self names depth dets = detect_loop self names depth dets []"

section \<open>DataOrganizer\<close>

text \<open>A value of the output dictionary: a number of metres or the string \<^verbatim>\<open>"NA"\<close>.\<close>

datatype cell = Meters rat | NA

text \<open>
  A Python \<^verbatim>\<open>dict\<close> keeps its keys in insertion order; storing under a key that is
  present replaces the value where the key stands, storing under a new key appends.
\<close>

type_synonym ranked_record = "(string \<times> cell) list"

fun dict_set :: "('k \<times> 'v) list \<Rightarrow> 'k \<Rightarrow> 'v \<Rightarrow> ('k \<times> 'v) list" where
  "dict_set [] k v = [(k, v)]"
| "dict_set (e # es) k v = (if fst e = k then (k, v) # es else e # dict_set es k v)"

definition cell_of :: "rat \<Rightarrow> cell" where
  "cell_of d = (if d \<noteq> 0 then Meters (to_metres d) else NA)"

text \<open>\<^verbatim>\<open>sorted(detected_objects, key=lambda x: x[1])[:3]\<close>; Python's sort is stable.\<close>

definition ranked :: "fused_object list \<Rightarrow> fused_object list" where
  "ranked detected_objects = take 3 (sort_key snd detected_objects)"

text \<open>The \<^verbatim>\<open>for\<close> loop storing the ranked objects into \<^verbatim>\<open>detected_data\<close>.\<close>

fun store_ranked :: "fused_object list \<Rightarrow> ranked_record \<Rightarrow> ranked_record" where
  "store_ranked [] detected_data = detected_data"
| "store_ranked (obj # objs) detected_data =
     store_ranked objs (dict_set detected_data (fst obj) (cell_of (snd obj)))"

definition na_key :: "nat \<Rightarrow> string" where
  "na_key n = ''NA_'' @ str_nat n"

text \<open>
  The \<^verbatim>\<open>while len(detected_data) < 3\<close> loop. Nothing bounds its number of rounds, so
  it is a partial function: \<open>None\<close> is "does not return".
\<close>

partial_function (option) pad_na :: "ranked_record \<Rightarrow> ranked_record option" where
  "pad_na detected_data =
     (if length detected_data < 3
      then pad_na (dict_set detected_data (na_key (length detected_data)) NA)
      else Some detected_data)"

declare pad_na.simps [code]

definition organize_data :: "fused_object list \<Rightarrow> ranked_record option" where
  "organize_data detected_objects = pad_na (store_ranked (ranked detected_objects) [])"

section \<open>The specification's vocabulary\<close>

text \<open>
  The definitions of this section follow the words of the specification; the theorems
  below compare the code with them. Where the specification computes with box
  coordinates, the arithmetic is the \<^verbatim>\<open>float32\<close> arithmetic of the code.
\<close>

text \<open>
  DepthSampler, edge policy: the square of side \<open>2 * r + 1\<close> around the centre, its
  coordinates clipped to the valid index range of the depth map.
\<close>

definition clipped_range :: "nat \<Rightarrow> int \<Rightarrow> int \<Rightarrow> nat list" where
  "clipped_range n c r = [nat (max 0 (c - r))..<nat (min (int n) (c + r + 1))]"

definition neighborhood :: "depth_image \<Rightarrow> int \<Rightarrow> int \<Rightarrow> int \<Rightarrow> nat list" where
  "neighborhood depth cx cy r =
     concat (map (\<lambda>j. map (\<lambda>i. depth ! j ! i) (clipped_range (length (depth ! j)) cx r))
       (clipped_range (length depth) cy r))"

text \<open>
  DetectionFilter: width times height, as the code computes them in \<^verbatim>\<open>float32\<close>; a
  detection is retained when the area is at least the threshold.
\<close>

definition bbox_area :: "detection \<Rightarrow> rat" where
  "bbox_area d = f32 (f32 (x_max d - x_min d) * f32 (y_max d - y_min d))"

definition detection_filter :: "rat \<Rightarrow> detection list \<Rightarrow> detection list" where
  "detection_filter min_area dets = filter (\<lambda>d. min_area \<le> bbox_area d) dets"

text \<open>FusionEngine: the centre of the bounding box, in \<^verbatim>\<open>float32\<close>.\<close>

definition bbox_center :: "detection \<Rightarrow> rat \<times> rat" where
  "bbox_center d = (f32 (f32 (x_min d + x_max d) / 2), f32 (f32 (y_min d + y_max d) / 2))"

text \<open>Ranker: the placeholder entries \<open>NA_n\<close>, \<open>NA_(n+1)\<close>, ... up to three slots.\<close>

definition na_entries :: "nat \<Rightarrow> ranked_record" where
  "na_entries n = map (\<lambda>i. (na_key i, NA)) [n..<3]"

text \<open>
  A record whose padding would have to use a key that is already present: some \<open>NA_i\<close>
  with \<open>i\<close> from the record's length up to \<open>2\<close> is one of its keys.
\<close>

definition pad_collides :: "ranked_record \<Rightarrow> bool" where
  "pad_collides d = list_ex (\<lambda>i. na_key i \<in> fst ` set d) [length d..<3]"

text \<open>
  Ranker: the labels of a list in the order of their first occurrence, and the value a
  label's slot ends with: that of the last object of this label.
\<close>

fun first_labels :: "string list \<Rightarrow> string list" where
  "first_labels [] = []"
| "first_labels (l # ls) = l # filter (\<lambda>k. k \<noteq> l) (first_labels ls)"

definition slot_value :: "fused_object list \<Rightarrow> string \<Rightarrow> cell" where
  "slot_value objs l = cell_of (snd (last (filter (\<lambda>obj. fst obj = l) objs)))"

definition slots :: "fused_object list \<Rightarrow> ranked_record" where
  "slots objs = map (\<lambda>l. (l, slot_value objs l)) (first_labels (map fst objs))"

section \<open>Dictionaries\<close>

lemma keys_dict_set: "fst ` set (dict_set d k v) = insert k (fst ` set d)"
  by (induction d) auto

lemma distinct_dict_set: "distinct (map fst d) \<Longrightarrow> distinct (map fst (dict_set d k v))"
  by (induction d) (auto simp: keys_dict_set)

lemma dict_set_fresh: "k \<notin> fst ` set d \<Longrightarrow> dict_set d k v = d @ [(k, v)]"
  by (induction d) auto

lemma length_dict_set_present: "k \<in> fst ` set d \<Longrightarrow> length (dict_set d k v) = length d"
  by (induction d) auto

lemma map_of_dict_set: "map_of (dict_set d k v) = (map_of d)(k \<mapsto> v)"
  by (induction d) (auto simp: fun_eq_iff)

lemma na_key_values:
  "na_key 0 = ''NA_0''" "na_key 1 = ''NA_1''" "na_key (Suc 0) = ''NA_1''" "na_key 2 = ''NA_2''"
  "na_key (Suc (Suc 0)) = ''NA_2''"
  by (simp_all add: na_key_def str_nat.simps digit_char_def)

lemma pad_na_full: "\<not> length d < 3 \<Longrightarrow> pad_na d = Some d"
  by (subst pad_na.simps) simp

lemma pad_na_Some_no_collision:
  assumes "pad_na d = Some r"
  shows "\<not> (length d < 3 \<and> na_key (length d) \<in> fst ` set d)"
proof (rule pad_na.raw_induct
    [where P = "\<lambda>d r. \<not> (length d < 3 \<and> na_key (length d) \<in> fst ` set d)", OF _ assms])
  fix pad :: "ranked_record \<Rightarrow> ranked_record option" and d r
  assume IH: "\<And>x y. pad x = Some y \<Longrightarrow> \<not> (length x < 3 \<and> na_key (length x) \<in> fst ` set x)"
    and step: "(if length d < 3 then pad (dict_set d (na_key (length d)) NA) else Some d) = Some r"
  show "\<not> (length d < 3 \<and> na_key (length d) \<in> fst ` set d)"
  proof
    assume c: "length d < 3 \<and> na_key (length d) \<in> fst ` set d"
    let ?d' = "dict_set d (na_key (length d)) NA"
    from c step have "pad ?d' = Some r" by simp
    then have "\<not> (length ?d' < 3 \<and> na_key (length ?d') \<in> fst ` set ?d')"
      by (rule IH)
    moreover have "length ?d' = length d" using c by (simp add: length_dict_set_present)
    moreover have "fst ` set ?d' = fst ` set d" using c by (auto simp: keys_dict_set)
    ultimately show False using c by simp
  qed
qed

lemma pad_na_collide:
  assumes "length d < 3" and "na_key (length d) \<in> fst ` set d"
  shows "pad_na d = None"
  using assms pad_na_Some_no_collision [of d] by (cases "pad_na d") auto

lemma pad_na_fresh:
  assumes "length d < 3" and "na_key (length d) \<notin> fst ` set d"
  shows "pad_na d = pad_na (d @ [(na_key (length d), NA)])"
  using assms by (subst pad_na.simps) (simp add: dict_set_fresh)

lemma na_key_inj3: "i < 3 \<Longrightarrow> j < 3 \<Longrightarrow> na_key i = na_key j \<Longrightarrow> i = j"
proof -
  assume "i < 3" "j < 3" and e: "na_key i = na_key j"
  then have "i \<in> {0, 1, 2}" "j \<in> {0, 1, 2}" by auto
  with e show ?thesis by (auto simp: na_key_values)
qed

lemma pad_na_eq:
  "pad_na d = (if pad_collides d then None else Some (d @ na_entries (length d)))"
proof (induction "3 - length d" arbitrary: d)
  case 0
  then show ?case by (simp add: pad_na_full pad_collides_def na_entries_def)
next
  case (Suc m)
  then have lt: "length d < 3" by simp
  let ?k = "na_key (length d)"
  have up: "[length d..<3] = length d # [Suc (length d)..<3]"
    using lt by (simp add: upt_conv_Cons)
  show ?case
  proof (cases "?k \<in> fst ` set d")
    case True
    then show ?thesis using lt by (simp add: pad_na_collide pad_collides_def up)
  next
    case False
    let ?d' = "d @ [(?k, NA)]"
    have "m = 3 - length ?d'" using Suc(2) by simp
    then have IH: "pad_na ?d' = (if pad_collides ?d' then None else Some (?d' @ na_entries (length ?d')))"
      by (rule Suc(1))
    have "pad_collides ?d' = pad_collides d"
      using False lt by (auto simp: pad_collides_def up list_ex_iff dest: na_key_inj3)
    moreover have "?d' @ na_entries (length ?d') = d @ na_entries (length d)"
      by (simp add: na_entries_def up)
    ultimately show ?thesis using IH pad_na_fresh [OF lt False] by simp
  qed
qed

section \<open>The loop storing the ranked objects\<close>

lemma keys_list_dict_set:
  "map fst (dict_set d k v) = (if k \<in> fst ` set d then map fst d else map fst d @ [k])"
  by (induction d) auto

lemma set_dict_set: "set (dict_set d k v) \<subseteq> insert (k, v) (set d)"
  by (induction d) auto

lemma keys_store_ranked: "fst ` set (store_ranked objs d) = fst ` set d \<union> fst ` set objs"
  by (induction objs arbitrary: d) (auto simp: keys_dict_set)

lemma distinct_store_ranked:
  "distinct (map fst d) \<Longrightarrow> distinct (map fst (store_ranked objs d))"
  by (induction objs arbitrary: d) (auto simp: distinct_dict_set)

lemma set_store_ranked:
  "set (store_ranked objs d) \<subseteq> set d \<union> (\<lambda>obj. (fst obj, cell_of (snd obj))) ` set objs"
proof (induction objs arbitrary: d)
  case Nil
  then show ?case by simp
next
  case (Cons obj objs)
  show ?case
    using Cons.IH [of "dict_set d (fst obj) (cell_of (snd obj))"]
      set_dict_set [of d "fst obj" "cell_of (snd obj)"]
    by auto
qed

lemma length_store_ranked: "length (store_ranked objs d) \<le> length d + length objs"
proof (induction objs arbitrary: d)
  case Nil
  then show ?case by simp
next
  case (Cons obj objs)
  have "length (dict_set d (fst obj) (cell_of (snd obj))) \<le> Suc (length d)"
    by (cases "fst obj \<in> fst ` set d") (simp_all add: length_dict_set_present dict_set_fresh)
  with Cons.IH [of "dict_set d (fst obj) (cell_of (snd obj))"] show ?case by simp
qed


lemma map_of_store_ranked:
  "map_of (store_ranked objs d) l =
     (if l \<in> fst ` set objs
      then Some (cell_of (snd (last (filter (\<lambda>obj. fst obj = l) objs))))
      else map_of d l)"
  by (induction objs arbitrary: d) (auto simp: map_of_dict_set image_iff filter_empty_conv)


section \<open>organize_data\<close>

lemma organize_data_eq:
  "organize_data xs =
     (if pad_collides (store_ranked (ranked xs) []) then None
      else Some (store_ranked (ranked xs) [] @ na_entries (length (store_ranked (ranked xs) []))))"
  by (simp add: organize_data_def pad_na_eq)

lemma set_ranked: "set (ranked xs) \<subseteq> set xs"
  unfolding ranked_def using set_take_subset [of 3 "sort_key snd xs"] by simp

lemma length_ranked: "length (ranked xs) \<le> 3"
  by (simp add: ranked_def)


lemma length_stored: "length (store_ranked (ranked xs) []) \<le> 3"
  using length_store_ranked [of "ranked xs" "[]"] length_ranked [of xs] by simp

lemma length_padded: "length d \<le> 3 \<Longrightarrow> length (d @ na_entries (length d)) = 3"
  by (simp add: na_entries_def)

lemma pad_collides_labels:
  assumes "pad_collides (store_ranked objs [])"
  shows "na_key 1 \<in> fst ` set objs \<or> na_key 2 \<in> fst ` set objs"
proof -
  let ?d = "store_ranked objs []"
  from assms obtain i where i: "length ?d \<le> i" "i < 3" "na_key i \<in> fst ` set ?d"
    unfolding pad_collides_def list_ex_iff by fastforce
  then have k: "na_key i \<in> fst ` set objs" by (simp add: keys_store_ranked)
  have "?d \<noteq> []" using i(3) by auto
  then have "i \<noteq> 0" using i(1) by (cases ?d) auto
  with i(2) have "i = 1 \<or> i = 2" by auto
  with k show ?thesis by auto
qed



section \<open>Floating-point rounding\<close>

lemma pow2_pos: "0 < pow2 k"
  by (simp add: pow2_def)

lemma pow2_Suc: "pow2 (k + 1) = 2 * pow2 k"
proof (cases "0 \<le> k")
  case True
  then show ?thesis by (simp add: pow2_def nat_add_distrib)
next
  case False
  then have "nat (- k) = Suc (nat (- (k + 1)))" by simp
  then have "(2::rat) ^ nat (- k) = 2 * 2 ^ nat (- (k + 1))" by simp
  with False show ?thesis by (auto simp: pow2_def)
qed

lemma pow2_mono: "j \<le> k \<Longrightarrow> pow2 j \<le> pow2 k"
proof (induction "nat (k - j)" arbitrary: k)
  case 0
  then show ?case by simp
next
  case (Suc n)
  then have "n = nat ((k - 1) - j)" "j \<le> k - 1" by simp_all
  then have "pow2 j \<le> pow2 (k - 1)" using Suc(1) by blast
  moreover have "pow2 k = 2 * pow2 (k - 1)" using pow2_Suc [of "k - 1"] by simp
  ultimately show ?case using pow2_pos [of "k - 1"] by simp
qed

lemma ulp_search_eq:
  assumes "k0 \<le> k" and "nat (k - k0) \<le> n" and "\<bar>q\<bar> < pow2 (k + int p)"
    and "k0 < k \<longrightarrow> pow2 (k + int p - 1) \<le> \<bar>q\<bar>"
  shows "ulp_search p n k0 q = k"
  using assms
proof (induction n arbitrary: k0)
  case 0
  then show ?case by simp
next
  case (Suc n)
  show ?case
  proof (cases "k0 = k")
    case True
    with Suc.prems show ?thesis by simp
  next
    case False
    with Suc.prems have lt: "k0 < k" by simp
    then have "pow2 (k0 + int p) \<le> pow2 (k + int p - 1)" by (intro pow2_mono) simp
    with Suc.prems(4) lt have "\<not> \<bar>q\<bar> < pow2 (k0 + int p)" by simp
    moreover have "ulp_search p n (k0 + 1) q = k"
      using Suc.prems lt by (intro Suc.IH) auto
    ultimately show ?thesis by simp
  qed
qed

lemma round_half_even_near:
  assumes "of_int m - 1 / 2 < q" and "q < of_int m + 1 / 2"
  shows "round_half_even q = m"
proof (cases "of_int m \<le> q")
  case True
  then have "\<lfloor>q\<rfloor> = m" using assms(2) by (intro floor_unique) auto
  then show ?thesis using assms(2) by (simp add: round_half_even_def)
next
  case False
  then have "\<lfloor>q\<rfloor> = m - 1" using assms(1) by (intro floor_unique) auto
  then show ?thesis using assms(1) by (simp add: round_half_even_def)
qed

lemma f32_near:
  assumes "- 149 \<le> k" and "k \<le> 104" and "\<bar>q\<bar> < pow2 (k + 24)"
    and "- 149 < k \<longrightarrow> pow2 (k + 23) \<le> \<bar>q\<bar>"
    and "of_int m - 1 / 2 < q / pow2 k" and "q / pow2 k < of_int m + 1 / 2"
  shows "f32 q = of_int m * pow2 k"
proof -
  have "ulp_search 24 253 (- 149) q = k"
    using assms(1-4) by (intro ulp_search_eq) (simp_all add: algebra_simps)
  then show ?thesis
    using round_half_even_near [OF assms(5,6)] by (simp add: f32_def fl_round_def)
qed

lemma f64_near:
  assumes "- 1074 \<le> k" and "k \<le> 971" and "\<bar>q\<bar> < pow2 (k + 53)"
    and "- 1074 < k \<longrightarrow> pow2 (k + 52) \<le> \<bar>q\<bar>"
    and "of_int m - 1 / 2 < q / pow2 k" and "q / pow2 k < of_int m + 1 / 2"
  shows "f64 q = of_int m * pow2 k"
proof -
  have "ulp_search 53 2045 (- 1074) q = k"
    using assms(1-4) by (intro ulp_search_eq) (simp_all add: algebra_simps)
  then show ?thesis
    using round_half_even_near [OF assms(5,6)] by (simp add: f64_def fl_round_def)
qed

lemma to_metres_near:
  assumes "f64 (d / 1000) = of_int m * pow2 k"
    and "of_int n - 1 / 2 < of_int m * pow2 k * 100"
    and "of_int m * pow2 k * 100 < of_int n + 1 / 2"
  shows "to_metres d = f64 (of_int n / 100)"
  using round_half_even_near [OF assms(2,3)] by (simp add: to_metres_def py_round2_def assms(1))

lemma to_metres_100: "to_metres 100 = f64 (1 / 10)"
proof -
  have "f64 (100 / 1000) = of_int 7205759403792794 * pow2 (- 56)"
    by (rule f64_near) (simp_all add: pow2_def)
  then have "to_metres 100 = f64 (of_int 10 / 100)"
    by (rule to_metres_near) (simp_all add: pow2_def)
  then show ?thesis by simp
qed

lemma to_metres_200: "to_metres 200 = f64 (1 / 5)"
proof -
  have "f64 (200 / 1000) = of_int 7205759403792794 * pow2 (- 55)"
    by (rule f64_near) (simp_all add: pow2_def)
  then have "to_metres 200 = f64 (of_int 20 / 100)"
    by (rule to_metres_near) (simp_all add: pow2_def)
  then show ?thesis by simp
qed

lemma to_metres_300: "to_metres 300 = f64 (3 / 10)"
proof -
  have "f64 (300 / 1000) = of_int 5404319552844595 * pow2 (- 54)"
    by (rule f64_near) (simp_all add: pow2_def)
  then have "to_metres 300 = f64 (of_int 30 / 100)"
    by (rule to_metres_near) (simp_all add: pow2_def)
  then show ?thesis by simp
qed

lemma to_metres_545: "to_metres 545 = f64 (55 / 100)"
proof -
  have "f64 (545 / 1000) = of_int 4908923593833841 * pow2 (- 53)"
    by (rule f64_near) (simp_all add: pow2_def)
  then have "to_metres 545 = f64 (of_int 55 / 100)"
    by (rule to_metres_near) (simp_all add: pow2_def)
  then show ?thesis by simp
qed

lemma f64_half: "f64 (1 / 2) = 1 / 2"
  using f64_near [where k = "- 53" and q = "1 / 2" and m = 4503599627370496]
  by (simp add: pow2_def)

lemma f64_1: "f64 1 = 1"
  using f64_near [where k = "- 52" and q = 1 and m = 4503599627370496]
  by (simp add: pow2_def)

lemma f64_2: "f64 2 = 2"
  using f64_near [where k = "- 51" and q = 2 and m = 4503599627370496]
  by (simp add: pow2_def)

lemma f64_3: "f64 3 = 3"
  using f64_near [where k = "- 51" and q = 3 and m = 6755399441055744]
  by (simp add: pow2_def)

lemma to_metres_500: "to_metres 500 = 1 / 2"
proof -
  have "f64 (500 / 1000) = of_int 4503599627370496 * pow2 (- 53)"
    using f64_half by (simp add: pow2_def)
  then have "to_metres 500 = f64 (of_int 50 / 100)"
    by (rule to_metres_near) (simp_all add: pow2_def)
  then show ?thesis by (simp add: f64_half)
qed

lemma to_metres_1000: "to_metres 1000 = 1"
proof -
  have "f64 (1000 / 1000) = of_int 4503599627370496 * pow2 (- 52)"
    using f64_1 by (simp add: pow2_def)
  then have "to_metres 1000 = f64 (of_int 100 / 100)"
    by (rule to_metres_near) (simp_all add: pow2_def)
  then show ?thesis by (simp add: f64_1)
qed

lemma to_metres_2000: "to_metres 2000 = 2"
proof -
  have "f64 (2000 / 1000) = of_int 4503599627370496 * pow2 (- 51)"
    using f64_2 by (simp add: pow2_def)
  then have "to_metres 2000 = f64 (of_int 200 / 100)"
    by (rule to_metres_near) (simp_all add: pow2_def)
  then show ?thesis by (simp add: f64_2)
qed

lemma to_metres_3000: "to_metres 3000 = 3"
proof -
  have "f64 (3000 / 1000) = of_int 6755399441055744 * pow2 (- 51)"
    using f64_3 by (simp add: pow2_def)
  then have "to_metres 3000 = f64 (of_int 300 / 100)"
    by (rule to_metres_near) (simp_all add: pow2_def)
  then show ?thesis by (simp add: f64_3)
qed

section \<open>The record in closed form\<close>

lemma set_first_labels: "set (first_labels ls) = set ls"
  by (induction ls) auto

lemma distinct_first_labels: "distinct (first_labels ls)"
  by (induction ls) (auto simp: set_first_labels)


lemma keys_list_store_ranked:
  "map fst (store_ranked objs d) =
     map fst d @ filter (\<lambda>l. l \<notin> fst ` set d) (first_labels (map fst objs))"
proof (induction objs arbitrary: d)
  case Nil
  then show ?case by simp
next
  case (Cons obj objs)
  let ?d' = "dict_set d (fst obj) (cell_of (snd obj))"
  have IH: "map fst (store_ranked objs ?d') =
      map fst ?d' @ filter (\<lambda>l. l \<notin> fst ` set ?d') (first_labels (map fst objs))"
    by (rule Cons.IH)
  show ?case
  proof (cases "fst obj \<in> fst ` set d")
    case True
    then have "filter (\<lambda>x. x \<noteq> fst obj \<and> x \<notin> fst ` set d) (first_labels (map fst objs)) =
        filter (\<lambda>l. l \<notin> fst ` set d) (first_labels (map fst objs))"
      by (intro filter_cong) auto
    with True IH show ?thesis
      by (simp add: keys_list_dict_set keys_dict_set insert_absorb)
  next
    case False
    have "filter (\<lambda>l. l \<noteq> fst obj \<and> l \<notin> fst ` set d) (first_labels (map fst objs)) =
        filter (\<lambda>l. l \<notin> fst ` set d \<and> l \<noteq> fst obj) (first_labels (map fst objs))"
      by (intro filter_cong) auto
    with False IH show ?thesis
      by (simp add: keys_list_dict_set keys_dict_set)
  qed
qed

lemma alist_by_keys:
  "distinct (map fst r) \<Longrightarrow> r = map (\<lambda>k. (k, the (map_of r k))) (map fst r)"
proof (induction r)
  case Nil
  then show ?case by simp
next
  case (Cons e r)
  let ?F = "\<lambda>k. (k, the (map_of (e # r) k))"
  have "the (map_of (e # r) k) = the (map_of r k)" if "k \<in> set (map fst r)" for k
  proof -
    from Cons.prems have "fst e \<notin> set (map fst r)" by simp
    with that have "k \<noteq> fst e" by blast
    then show ?thesis by (cases e) simp
  qed
  then have "map ?F (map fst r) = map (\<lambda>k. (k, the (map_of r k))) (map fst r)"
    by (intro map_cong) simp_all
  moreover have "r = map (\<lambda>k. (k, the (map_of r k))) (map fst r)"
    using Cons by simp
  ultimately have tail: "map ?F (map fst r) = r" by (rule trans [OF _ sym])
  have head: "?F (fst e) = e" by (cases e) simp
  have "map ?F (map fst (e # r)) = ?F (fst e) # map ?F (map fst r)" by simp
  also have "\<dots> = e # r" by (simp only: head tail)
  finally show ?case by (rule sym)
qed

lemma store_ranked_slots: "store_ranked objs [] = slots objs"
proof -
  let ?r = "store_ranked objs []"
  have k: "map fst ?r = first_labels (map fst objs)"
    by (simp add: keys_list_store_ranked)
  have "distinct (map fst ?r)"
    by (simp add: k distinct_first_labels)
  then have "?r = map (\<lambda>l. (l, the (map_of ?r l))) (map fst ?r)"
    by (rule alist_by_keys)
  also have "\<dots> = map (\<lambda>l. (l, slot_value objs l)) (first_labels (map fst objs))"
    unfolding k by (intro map_cong) (auto simp: map_of_store_ranked set_first_labels slot_value_def)
  finally show ?thesis by (simp add: slots_def)
qed

lemma length_slots: "length (slots objs) \<le> length objs"
  using length_store_ranked [of objs "[]"] by (simp add: store_ranked_slots)





section \<open>Padding\<close>

text \<open>
  Claim C4 says that \<^verbatim>\<open>organize_data\<close> returns a record of three entries for every
  input, labels of the form \<open>NA_i\<close> included. With the single object labelled
  \<open>NA_1\<close> the padding loop stores \<open>NA_1\<close> again and again, the length stays
  \<open>1\<close>, and the function never returns.
\<close>

theorem organize_data_label_NA_1_diverges:
  "organize_data [(''NA_1'', 500)] = None"
proof -
  have "pad_na [(''NA_1'', Meters (1 / 2))] = None"
    by (rule pad_na_collide) (simp_all add: na_key_values)
  then show ?thesis
    by (simp add: organize_data_def ranked_def cell_of_def to_metres_500)
qed

text \<open>
  Claim C2, as stated, covers inputs that hold objects with invalid distance only. One
  such object keeps its own label as the first key; the record is not
  \<open>NA_0\<close>, \<open>NA_1\<close>, \<open>NA_2\<close>.
\<close>

theorem organize_data_only_invalid_example:
  "organize_data [(''chair'', 0)] = Some [(''chair'', NA), (''NA_1'', NA), (''NA_2'', NA)]"
  by (simp add: organize_data_eq ranked_def cell_of_def pad_collides_def na_entries_def
      na_key_values upt_conv_Cons)

text \<open>
  Claim C2, amended: when no object has a valid distance and no label is \<open>NA_1\<close> or
  \<open>NA_2\<close>, \<^verbatim>\<open>organize_data\<close> returns a record of three entries that all hold
  \<open>"NA"\<close>, whose keys are the labels of the ranked objects followed by placeholders; and
  on the empty list the record is exactly \<open>NA_0\<close>, \<open>NA_1\<close>, \<open>NA_2\<close>.
\<close>

theorem organize_data_no_valid:
  assumes "\<forall>obj\<in>set xs. snd obj = 0" and "''NA_1'' \<notin> fst ` set xs" and "''NA_2'' \<notin> fst ` set xs"
  shows "(\<exists>r. organize_data xs = Some r \<and> length r = 3 \<and> (\<forall>e\<in>set r. snd e = NA) \<and>
            fst ` set r = fst ` set (ranked xs) \<union> na_key ` {length (store_ranked (ranked xs) [])..<3}) \<and>
         organize_data [] = Some [(''NA_0'', NA), (''NA_1'', NA), (''NA_2'', NA)]"
proof -
  let ?d = "store_ranked (ranked xs) []"
  let ?r = "?d @ na_entries (length ?d)"
  have "\<not> pad_collides ?d"
    using pad_collides_labels [of "ranked xs"] set_ranked [of xs] assms(2,3)
    by (auto simp: na_key_values)
  then have 1: "organize_data xs = Some ?r" by (simp add: organize_data_eq)
  have 2: "length ?r = 3" using length_stored by (rule length_padded)
  have 3: "snd e = NA" if "e \<in> set ?r" for e
  proof (cases "e \<in> set ?d")
    case True
    with set_store_ranked [of "ranked xs" "[]"]
    obtain obj where "obj \<in> set (ranked xs)" "e = (fst obj, cell_of (snd obj))" by auto
    moreover from this have "snd obj = 0" using set_ranked [of xs] assms(1) by auto
    ultimately show ?thesis by (simp add: cell_of_def)
  next
    case False
    with that show ?thesis by (auto simp: na_entries_def)
  qed
  have 4: "fst ` set ?r = fst ` set (ranked xs) \<union> na_key ` {length ?d..<3}"
    by (auto simp: keys_store_ranked na_entries_def image_Un image_image)
  have 5: "organize_data [] = Some [(''NA_0'', NA), (''NA_1'', NA), (''NA_2'', NA)]"
    by (simp add: organize_data_eq ranked_def pad_collides_def na_entries_def
      na_key_values upt_conv_Cons)
  from 1 2 3 4 5 show ?thesis by blast
qed

theorem organize_data_no_valid_witness:
  "list_all (\<lambda>obj. snd obj = 0) [(''chair'', 0 :: rat), (''person'', 0)] \<and>
   ''NA_1'' \<notin> fst ` set [(''chair'', 0 :: rat), (''person'', 0)] \<and>
   ''NA_2'' \<notin> fst ` set [(''chair'', 0 :: rat), (''person'', 0)] \<and>
   organize_data [(''chair'', 0), (''person'', 0)] =
     Some [(''chair'', NA), (''person'', NA), (''NA_2'', NA)] \<and>
   (\<exists>r. organize_data [(''chair'', 0), (''person'', 0)] = Some r \<and> length r = 3 \<and>
      (\<forall>e\<in>set r. snd e = NA))"
proof -
  have e: "organize_data [(''chair'', 0), (''person'', 0)] =
     Some [(''chair'', NA), (''person'', NA), (''NA_2'', NA)]"
    by (simp add: organize_data_eq ranked_def cell_of_def pad_collides_def na_entries_def
      na_key_values upt_conv_Cons)
  have h: "\<forall>obj\<in>set [(''chair'', 0 :: rat), (''person'', 0)]. snd obj = 0"
    "''NA_1'' \<notin> fst ` set [(''chair'', 0 :: rat), (''person'', 0)]"
    "''NA_2'' \<notin> fst ` set [(''chair'', 0 :: rat), (''person'', 0)]"
    by simp_all
  have "\<exists>r. organize_data [(''chair'', 0), (''person'', 0)] = Some r \<and> length r = 3 \<and>
      (\<forall>e\<in>set r. snd e = NA)"
    using organize_data_no_valid [OF h] by blast
  with e h show ?thesis by simp
qed

section \<open>Keys and order\<close>


lemma distinct_keys_once:
  "distinct (map fst r) \<Longrightarrow> l \<in> fst ` set r \<Longrightarrow> length (filter (\<lambda>e. fst e = l) r) = 1"
proof (induction r)
  case Nil
  then show ?case by simp
next
  case (Cons e r)
  show ?case
  proof (cases "fst e = l")
    case True
    with Cons.prems(1) have "filter (\<lambda>e. fst e = l) r = []"
      by (auto simp: filter_empty_conv image_iff)
    with True show ?thesis by simp
  next
    case False
    with Cons show ?thesis by auto
  qed
qed

lemma distinct_padded:
  assumes "distinct (map fst d)" and "\<not> pad_collides d"
  shows "distinct (map fst (d @ na_entries (length d)))"
proof -
  have "distinct (map fst (na_entries (length d)))"
    by (auto simp: na_entries_def distinct_map comp_def inj_on_def dest: na_key_inj3)
  moreover have "fst ` set d \<inter> fst ` set (na_entries (length d)) = {}"
    using assms(2) unfolding pad_collides_def list_ex_iff na_entries_def by force
  ultimately show ?thesis using assms(1) by simp
qed

section \<open>calculate_distance\<close>

lemma take_drop_nth:
  assumes "b \<le> length xs"
  shows "take (b - a) (drop a xs) = map ((!) xs) [a..<b]"
proof (rule nth_equalityI)
  show "length (take (b - a) (drop a xs)) = length (map ((!) xs) [a..<b])"
    using assms by simp
next
  fix i
  assume "i < length (take (b - a) (drop a xs))"
  then have "i < b - a" by simp
  then show "take (b - a) (drop a xs) ! i = map ((!) xs) [a..<b] ! i"
    using assms by simp
qed

lemma py_slice_clipped:
  assumes "0 \<le> r" and "r \<le> c"
  shows "py_slice xs (c - r) (c + r + 1) = map ((!) xs) (clipped_range (length xs) c r)"
proof -
  let ?n = "length xs"
  let ?b = "min (nat (c + r + 1)) ?n"
  have b: "slice_bound ?n (c + r + 1) = ?b" "nat (min (int ?n) (c + r + 1)) = ?b"
    using assms by (auto simp: slice_bound_def min_def)
  show ?thesis
  proof (cases "nat (c - r) \<le> ?n")
    case True
    then have "slice_bound ?n (c - r) = nat (c - r)" using assms by (simp add: slice_bound_def)
    moreover have "nat (max 0 (c - r)) = nat (c - r)" using assms by simp
    ultimately show ?thesis
      using take_drop_nth [of ?b xs "nat (c - r)"] b
      by (simp add: py_slice_def clipped_range_def)
  next
    case False
    then have "slice_bound ?n (c - r) = ?n" using assms by (simp add: slice_bound_def)
    moreover have "?b \<le> nat (max 0 (c - r))" using False by simp
    ultimately show ?thesis using b by (simp add: py_slice_def clipped_range_def)
  qed
qed

lemma region_clipped:
  assumes "0 \<le> r" and "r \<le> cx" and "r \<le> cy"
  shows "concat (region r depth cx cy) = neighborhood depth cx cy r"
  by (simp add: region_def neighborhood_def py_slice_clipped [OF assms(1,2)]
      py_slice_clipped [OF assms(1,3)] comp_def)

lemma np_mean_pos: "vs \<noteq> [] \<Longrightarrow> 0 \<notin> set vs \<Longrightarrow> 0 < np_mean vs"
proof -
  assume "vs \<noteq> []" "0 \<notin> set vs"
  then obtain v where "v \<in> set vs" "0 < v" by (cases vs) auto
  then have "0 < sum_list vs" using member_le_sum_list [of v vs] by simp
  with \<open>vs \<noteq> []\<close> show ?thesis by (simp add: np_mean_def)
qed

lemma calculate_distance_cases:
  "calculate_distance self depth x y =
     (if filter (\<lambda>v. v \<noteq> 0) (concat (region (range_value self) depth (py_int x) (py_int y))) = []
      then 0
      else np_mean (filter (\<lambda>v. v \<noteq> 0)
             (concat (region (range_value self) depth (py_int x) (py_int y)))))"
  by (simp add: calculate_distance_def Let_def)


lemma calculate_distance_nonneg: "0 \<le> calculate_distance self depth x y"
  using np_mean_pos [of "filter (\<lambda>v. v \<noteq> 0) (concat (region (range_value self) depth (py_int x) (py_int y)))"]
  by (auto simp: calculate_distance_cases intro: less_imp_le)

lemma np_mean_const:
  assumes "vs \<noteq> []" and "\<forall>v\<in>set vs. v = c"
  shows "np_mean vs = of_nat c"
proof -
  have "sum_list vs = length vs * c" using assms(2) by (induction vs) auto
  with assms(1) show ?thesis by (simp add: np_mean_def)
qed

section \<open>The top and left edges\<close>

text \<open>
  Claim C3 says that a centre within the radius of the top or left edge yields the mean
  over the in-bounds part of its neighbourhood. On a 720 by 1280 depth map whose samples
  all read 1000, with the centre in row 1, the in-bounds neighbourhood (rows 0 to 4) holds
  35 samples of 1000; the row slice \<^verbatim>\<open>[-2:5]\<close> of the code starts at row 718, is
  empty, and \<^verbatim>\<open>calculate_distance\<close> returns \<open>0\<close>, the invalid distance.
\<close>

theorem calculate_distance_top_edge:
  "calculate_distance ObjectDetector_init (replicate 720 (replicate 1280 1000)) 640 1 = 0 \<and>
   region 3 (replicate 720 (replicate 1280 1000)) 640 1 = [] \<and>
   length (neighborhood (replicate 720 (replicate 1280 1000)) 640 1 3) = 35 \<and>
   list_all (\<lambda>v. v = 1000) (neighborhood (replicate 720 (replicate 1280 1000)) 640 1 3)"
proof -
  have "region 3 (replicate 720 (replicate 1280 (1000 :: nat))) 640 1 = []"
    by (simp add: region_def py_slice_def slice_bound_def)
  moreover from this
  have "calculate_distance ObjectDetector_init (replicate 720 (replicate 1280 1000)) 640 1 = 0"
    by (simp add: calculate_distance_def ObjectDetector_init_def py_int_def)
  moreover have "neighborhood (replicate 720 (replicate 1280 (1000 :: nat))) 640 1 3 =
      [1000, 1000, 1000, 1000, 1000, 1000, 1000,  1000, 1000, 1000, 1000, 1000, 1000, 1000,
       1000, 1000, 1000, 1000, 1000, 1000, 1000,  1000, 1000, 1000, 1000, 1000, 1000, 1000,
       1000, 1000, 1000, 1000, 1000, 1000, 1000]"
    by (simp add: neighborhood_def clipped_range_def upt_conv_Cons)
  ultimately show ?thesis by simp
qed

section \<open>Invalid distances in the ranking\<close>

lemma cell_of_values:
  "cell_of 0 = NA" "cell_of 100 = Meters (f64 (1 / 10))" "cell_of 200 = Meters (f64 (1 / 5))"
  "cell_of 300 = Meters (f64 (3 / 10))" "cell_of 500 = Meters (1 / 2)"
  "cell_of 1000 = Meters 1" "cell_of 2000 = Meters 2" "cell_of 3000 = Meters 3"
  by (simp_all add: cell_of_def to_metres_100 to_metres_200 to_metres_300 to_metres_500
      to_metres_1000 to_metres_2000 to_metres_3000)




section \<open>The order of the ranked slots\<close>




section \<open>Duplicate labels\<close>

text \<open>
  Claim C7 says that when two of the ranked objects share a label, the record that
  \<^verbatim>\<open>organize_data\<close> produces keeps one entry for the label, with the distance stored
  last. That is what the code does when it returns: two objects labelled \<open>cup\<close> leave
  one slot \<open>cup\<close> holding the metres of the farther one. But when the shared label is
  \<open>NA_1\<close>, the one entry left is the key the padding loop stores next, and no record
  is produced.
\<close>

theorem duplicate_label_NA_1_diverges:
  "organize_data [(''NA_1'', 100), (''NA_1'', 200)] = None \<and>
   organize_data [(''cup'', 300), (''cup'', 200), (''chair'', 100)] =
     Some [(''chair'', Meters (f64 (1 / 10))), (''cup'', Meters (f64 (3 / 10))), (''NA_2'', NA)]"
proof -
  have "pad_na [(''NA_1'', Meters (f64 (1 / 5)))] = None"
    by (rule pad_na_collide) (simp_all add: na_key_values)
  then have 1: "organize_data [(''NA_1'', 100), (''NA_1'', 200)] = None"
    by (simp add: organize_data_def ranked_def cell_of_values)
  have 2: "organize_data [(''cup'', 300), (''cup'', 200), (''chair'', 100)] =
     Some [(''chair'', Meters (f64 (1 / 10))), (''cup'', Meters (f64 (3 / 10))), (''NA_2'', NA)]"
    by (simp add: organize_data_eq ranked_def cell_of_values
        pad_collides_def na_entries_def na_key_values upt_conv_Cons)
  from 1 2 show ?thesis by simp
qed

section \<open>The sampled neighbourhood\<close>

lemma calculate_distance_interior:
  assumes "0 \<le> range_value self" and "range_value self \<le> py_int x"
    and "range_value self \<le> py_int y"
  shows "calculate_distance self depth x y =
     (if filter (\<lambda>v. v \<noteq> 0) (neighborhood depth (py_int x) (py_int y) (range_value self)) = []
      then 0
      else np_mean (filter (\<lambda>v. v \<noteq> 0)
             (neighborhood depth (py_int x) (py_int y) (range_value self))))"
  by (simp add: calculate_distance_cases region_clipped [OF assms])

text \<open>
  Claim C5 says that for every centre pixel \<^verbatim>\<open>calculate_distance\<close> returns invalid
  only when every sample of the neighbourhood is \<open>0\<close>, and the mean of the non-zero
  samples otherwise. Away from the top and left edges it does: in the spec's scenario at
  (100, 100) the result is 1000. At the centre (4, 1) of a 9 by 9 map whose samples all
  read 7, the neighbourhood holds 35 samples of 7, but the row slice \<^verbatim>\<open>[-2:5]\<close> is
  empty and the result is \<open>0\<close>, the invalid distance.
\<close>

theorem calculate_distance_edge_invalid:
  "calculate_distance ObjectDetector_init (replicate 9 (replicate 9 7)) 4 1 = 0 \<and>
   region 3 (replicate 9 (replicate 9 7)) 4 1 = [] \<and>
   length (neighborhood (replicate 9 (replicate 9 7)) 4 1 3) = 35 \<and>
   list_all (\<lambda>v. v = 7) (neighborhood (replicate 9 (replicate 9 7)) 4 1 3) \<and>
   take 7 (neighborhood
       (replicate 97 (replicate 201 0) @
        [replicate 99 0 @ [1000, 1000, 1000] @ replicate 99 0] @
        replicate 103 (replicate 201 0)) 100 100 3) = [0, 0, 1000, 1000, 1000, 0, 0] \<and>
   calculate_distance ObjectDetector_init
       (replicate 97 (replicate 201 0) @
        [replicate 99 0 @ [1000, 1000, 1000] @ replicate 99 0] @
        replicate 103 (replicate 201 0)) 100 100 = 1000"
proof -
  let ?depth = "replicate 97 (replicate 201 0) @
        [replicate 99 0 @ [1000, 1000, 1000] @ replicate 99 0] @
        replicate 103 (replicate 201 (0 :: nat))"
  have r: "range_value ObjectDetector_init = 3" "py_int 100 = 100"
    by (simp_all add: ObjectDetector_init_def py_int_def)
  have 1: "region 3 (replicate 9 (replicate 9 (7 :: nat))) 4 1 = []"
    by (simp add: region_def py_slice_def slice_bound_def)
  then have 2: "calculate_distance ObjectDetector_init (replicate 9 (replicate 9 7)) 4 1 = 0"
    by (simp add: calculate_distance_def ObjectDetector_init_def py_int_def)
  have 3: "neighborhood (replicate 9 (replicate 9 (7 :: nat))) 4 1 3 =
      [7, 7, 7, 7, 7, 7, 7,  7, 7, 7, 7, 7, 7, 7,  7, 7, 7, 7, 7, 7, 7,
       7, 7, 7, 7, 7, 7, 7,  7, 7, 7, 7, 7, 7, 7]"
    by (simp add: neighborhood_def clipped_range_def upt_conv_Cons)
  have nb: "neighborhood ?depth 100 100 3 =
      [0, 0, 1000, 1000, 1000, 0, 0,  0, 0, 0, 0, 0, 0, 0,  0, 0, 0, 0, 0, 0, 0,
       0, 0, 0, 0, 0, 0, 0,  0, 0, 0, 0, 0, 0, 0,  0, 0, 0, 0, 0, 0, 0,  0, 0, 0, 0, 0, 0, 0]"
    by (simp add: neighborhood_def clipped_range_def nth_append)
  have "(0 :: int) \<le> 3" "(3 :: int) \<le> 100" by simp_all
  note int = calculate_distance_interior [of ObjectDetector_init 100 100 ?depth, unfolded r,
      OF this(1) this(2) this(2)]
  have 4: "calculate_distance ObjectDetector_init ?depth 100 100 = 1000"
    unfolding int nb by (simp add: np_mean_def)
  have 5: "take 7 (neighborhood ?depth 100 100 3) = [0, 0, 1000, 1000, 1000, 0, 0]"
    unfolding nb by simp
  have 6: "length (neighborhood (replicate 9 (replicate 9 (7 :: nat))) 4 1 3) = 35"
    unfolding 3 by simp
  have 7: "list_all (\<lambda>v. v = 7) (neighborhood (replicate 9 (replicate 9 (7 :: nat))) 4 1 3)"
    unfolding 3 by simp
  show ?thesis
    by (rule conjI [OF 2 conjI [OF 1 conjI [OF 6 conjI [OF 7 conjI [OF 5 4]]]]])
qed

section \<open>Values of float32 arithmetic\<close>

lemma f32_v0: "f32 120 = 120"
  using f32_near [where k = "- 17" and q = "120" and m = "15728640"]
  by (simp add: pow2_def)

lemma f32_v1: "f32 14400 = 14400"
  using f32_near [where k = "- 10" and q = "14400" and m = "14745600"]
  by (simp add: pow2_def)

lemma f32_v2: "f32 (15728641 / 131072) = (15728641 / 131072)"
  using f32_near [where k = "- 17" and q = "(15728641 / 131072)" and m = "15728641"]
  by (simp add: pow2_def)

lemma f32_v3: "f32 (15728639 / 131072) = (15728639 / 131072)"
  using f32_near [where k = "- 17" and q = "(15728639 / 131072)" and m = "15728639"]
  by (simp add: pow2_def)

lemma f32_v4: "f32 (247390116249599 / 17179869184) = 14400"
  using f32_near [where k = "- 10" and q = "(247390116249599 / 17179869184)" and m = "14745600"]
  by (simp add: pow2_def)

lemma f32_v5: "f32 1280 = 1280"
  using f32_near [where k = "- 13" and q = "1280" and m = "10485760"]
  by (simp add: pow2_def)

lemma f32_v6: "f32 720 = 720"
  using f32_near [where k = "- 14" and q = "720" and m = "11796480"]
  by (simp add: pow2_def)

lemma f32_v7: "f32 921600 = 921600"
  using f32_near [where k = "- 4" and q = "921600" and m = "14745600"]
  by (simp add: pow2_def)

lemma f32_v8: "f32 10 = 10"
  using f32_near [where k = "- 20" and q = "10" and m = "10485760"]
  by (simp add: pow2_def)

lemma f32_v9: "f32 100 = 100"
  using f32_near [where k = "- 17" and q = "100" and m = "13107200"]
  by (simp add: pow2_def)

lemma f32_v10: "f32 640 = 640"
  using f32_near [where k = "- 14" and q = "640" and m = "10485760"]
  by (simp add: pow2_def)

lemma f32_v11: "f32 360 = 360"
  using f32_near [where k = "- 15" and q = "360" and m = "11796480"]
  by (simp add: pow2_def)

lemma f32_v12: "f32 201 = 201"
  using f32_near [where k = "- 16" and q = "201" and m = "13172736"]
  by (simp add: pow2_def)

lemma f32_v13: "f32 719 = 719"
  using f32_near [where k = "- 14" and q = "719" and m = "11780096"]
  by (simp add: pow2_def)

lemma f32_v14: "f32 144519 = 144519"
  using f32_near [where k = "- 6" and q = "144519" and m = "9249216"]
  by (simp add: pow2_def)

lemma f32_v15: "f32 401 = 401"
  using f32_near [where k = "- 15" and q = "401" and m = "13139968"]
  by (simp add: pow2_def)

lemma f32_v16: "f32 721 = 721"
  using f32_near [where k = "- 14" and q = "721" and m = "11812864"]
  by (simp add: pow2_def)

lemma f32_v17: "f32 (401 / 2) = (401 / 2)"
  using f32_near [where k = "- 16" and q = "(401 / 2)" and m = "13139968"]
  by (simp add: pow2_def)

lemma f32_v18: "f32 (721 / 2) = (721 / 2)"
  using f32_near [where k = "- 15" and q = "(721 / 2)" and m = "11812864"]
  by (simp add: pow2_def)

lemma f32_v19: "f32 (52690943 / 131072) = 402"
  using f32_near [where k = "- 15" and q = "(52690943 / 131072)" and m = "13172736"]
  by (simp add: pow2_def)

lemma f32_v20: "f32 402 = 402"
  using f32_near [where k = "- 15" and q = "402" and m = "13172736"]
  by (simp add: pow2_def)

lemma f32_v21: "f32 204 = 204"
  using f32_near [where k = "- 16" and q = "204" and m = "13369344"]
  by (simp add: pow2_def)

lemma f32_v22: "f32 146880 = 146880"
  using f32_near [where k = "- 6" and q = "146880" and m = "9400320"]
  by (simp add: pow2_def)

lemma f32_v23: "f32 4 = 4"
  using f32_near [where k = "- 21" and q = "4" and m = "8388608"]
  by (simp add: pow2_def)

lemma f32_v24: "f32 2 = 2"
  using f32_near [where k = "- 22" and q = "2" and m = "8388608"]
  by (simp add: pow2_def)

lemma f32_v25: "f32 (13238271 / 131072) = (13238271 / 131072)"
  using f32_near [where k = "- 17" and q = "(13238271 / 131072)" and m = "13238271"]
  by (simp add: pow2_def)

lemma f32_v26: "f32 301 = 301"
  using f32_near [where k = "- 15" and q = "301" and m = "9863168"]
  by (simp add: pow2_def)

lemmas f32_values = f32_v0 f32_v1 f32_v2 f32_v3 f32_v4 f32_v5 f32_v6 f32_v7 f32_v8 f32_v9 f32_v10 f32_v11 f32_v12 f32_v13 f32_v14 f32_v15 f32_v16 f32_v17 f32_v18 f32_v19 f32_v20 f32_v21 f32_v22 f32_v23 f32_v24 f32_v25 f32_v26

section \<open>The area filter\<close>

lemma detect_loop_eq:
  "detect_loop self names depth dets acc =
     acc @ map (\<lambda>d. (names (py_int (class_id d)),
                    calculate_distance self depth (fst (bbox_center d)) (snd (bbox_center d))))
             (detection_filter (f32 (of_int (rect_threshold self))) dets)"
  by (induction dets arbitrary: acc)
    (simp_all add: detection_filter_def bbox_area_def bbox_center_def Let_def not_less)

lemma detect_objects_eq:
  "detect_objects self names depth dets =
     map (\<lambda>d. (names (py_int (class_id d)),
               calculate_distance self depth (fst (bbox_center d)) (snd (bbox_center d))))
       (detection_filter (f32 (of_int (rect_threshold self))) dets)"
  by (simp add: detect_objects_def detect_loop_eq)

lemma threshold_init: "f32 (of_int (rect_threshold ObjectDetector_init)) = 14400"
  by (simp add: ObjectDetector_init_def f32_values)


section \<open>The fusion loop\<close>

lemma detect_objects_single:
  "detect_objects self names depth [d] =
     (if f32 (of_int (rect_threshold self)) \<le> bbox_area d
      then [(names (py_int (class_id d)),
             calculate_distance self depth (fst (bbox_center d)) (snd (bbox_center d)))]
      else [])"
  by (simp add: detect_objects_eq detection_filter_def)


section \<open>The invalid distance\<close>

text \<open>
  Claim C10 says that \<^verbatim>\<open>calculate_distance\<close> returns \<open>0\<close> exactly when no sample of
  the neighbourhood is non-zero, so that the test \<^verbatim>\<open>obj[1] != 0\<close> of
  \<^verbatim>\<open>organize_data\<close>, which writes \<open>"NA"\<close> exactly for the distance \<open>0\<close>, tells
  the objects without a valid sample from the others. At the centre (1, 4) of a 9 by 9 map
  whose samples all read 1000 the neighbourhood holds 35 samples of 1000, but the column
  slice \<^verbatim>\<open>[-2:5]\<close> is empty, the result is \<open>0\<close> and the object is written as
  \<open>"NA"\<close>. The same happens in \<^verbatim>\<open>detect_objects\<close> for a box from (-100, 0) to
  (104, 720), whose centre is the pixel (2, 360), on a full frame of samples 1000.
\<close>

theorem invalid_distance_with_valid_samples:
  "calculate_distance ObjectDetector_init (replicate 9 (replicate 9 1000)) 1 4 = 0 \<and>
   length (neighborhood (replicate 9 (replicate 9 1000)) 1 4 3) = 35 \<and>
   list_all (\<lambda>v. v = 1000) (neighborhood (replicate 9 (replicate 9 1000)) 1 4 3) \<and>
   cell_of (calculate_distance ObjectDetector_init (replicate 9 (replicate 9 1000)) 1 4) = NA \<and>
   (cell_of d = NA) = (d = 0) \<and>
   detect_objects ObjectDetector_init names (replicate 720 (replicate 1280 1000))
     [\<lparr>x_min = - 100, y_min = 0, x_max = 104, y_max = 720, confidence = 9 / 10, class_id = 0\<rparr>] =
     [(names 0, 0)]"
proof -
  have r: "range_value ObjectDetector_init = 3"
    by (simp add: ObjectDetector_init_def)
  have pi: "py_int 1 = 1" "py_int 4 = 4" "py_int 2 = 2" "py_int 360 = 360"
    by (simp_all add: py_int_def)
  have e: "concat (region 3 (replicate 9 (replicate 9 (1000 :: nat))) 1 4) = []"
    by (simp add: region_def py_slice_def slice_bound_def)
  have 1: "calculate_distance ObjectDetector_init (replicate 9 (replicate 9 1000)) 1 4 = 0"
    unfolding calculate_distance_cases r pi e by simp
  have nb: "neighborhood (replicate 9 (replicate 9 (1000 :: nat))) 1 4 3 =
      [1000, 1000, 1000, 1000, 1000,  1000, 1000, 1000, 1000, 1000,
       1000, 1000, 1000, 1000, 1000,  1000, 1000, 1000, 1000, 1000,
       1000, 1000, 1000, 1000, 1000,  1000, 1000, 1000, 1000, 1000,
       1000, 1000, 1000, 1000, 1000]"
    by (simp add: neighborhood_def clipped_range_def upt_conv_Cons)
  have 2: "length (neighborhood (replicate 9 (replicate 9 (1000 :: nat))) 1 4 3) = 35"
    unfolding nb by simp
  have 3: "list_all (\<lambda>v. v = 1000) (neighborhood (replicate 9 (replicate 9 (1000 :: nat))) 1 4 3)"
    unfolding nb by simp
  have 4: "cell_of (calculate_distance ObjectDetector_init (replicate 9 (replicate 9 1000)) 1 4) = NA"
    unfolding 1 by (simp add: cell_of_def)
  have 5: "(cell_of d = NA) = (d = 0)"
    by (simp add: cell_of_def)
  have e': "concat (region 3 (replicate 720 (replicate 1280 (1000 :: nat))) 2 360) = []"
    by (simp add: region_def py_slice_def slice_bound_def)
  have cd: "calculate_distance ObjectDetector_init (replicate 720 (replicate 1280 1000)) 2 360 = 0"
    unfolding calculate_distance_cases r pi e' by simp
  have a: "bbox_area \<lparr>x_min = - 100, y_min = 0, x_max = 104, y_max = 720,
     confidence = 9 / 10, class_id = 0\<rparr> = 146880"
    by (simp add: bbox_area_def f32_values)
  have c: "bbox_center \<lparr>x_min = - 100, y_min = 0, x_max = 104, y_max = 720,
     confidence = 9 / 10, class_id = 0\<rparr> = (2, 360)"
    by (simp add: bbox_center_def f32_values)
  have 6: "detect_objects ObjectDetector_init names (replicate 720 (replicate 1280 1000))
     [\<lparr>x_min = - 100, y_min = 0, x_max = 104, y_max = 720, confidence = 9 / 10, class_id = 0\<rparr>] =
     [(names 0, 0)]"
    unfolding detect_objects_single threshold_init a c fst_conv snd_conv cd
    by (simp add: py_int_def)
  show ?thesis
    by (rule conjI [OF 1 conjI [OF 2 conjI [OF 3 conjI [OF 4 conjI [OF 5 6]]]]])
qed

end
